theory Spec2Isabelle
  imports Complex_Main "HOL-Library.Sublist"
begin

section \<open>The user-management component of \<open>src/App.js\<close>\<close>

text \<open>
  The component keeps six pieces of state (\<open>useState\<close>): the list of users, the modal
  flag, the form draft, the error banner, the editing flag and the current page. Every
  handler is modelled as a function from the state before the event to the state after
  it. An id is a JavaScript Number that holds an integer: it is modelled as an \<open>int\<close>,
  comparisons of ids are exact, and the one addition on ids, \<open>maxId + 1\<close>, rounds as
  an addition of doubles does (\<open>number_add\<close>).
\<close>

subsection \<open>Data\<close>

text \<open>
  A user record and the form draft have the same five fields. They differ in the id: a
  user's id is a number, the draft's id is the empty string (\<open>Blank\<close>) or a number.
  The field \<open>id\<close> of the source is \<open>ident\<close> here.
\<close>

datatype id_field = Blank | Num int

record 'i fields =
  ident :: 'i
  firstName :: string
  lastName :: string
  email :: string
  department :: string

type_synonym user = "int fields"
type_synonym form = "id_field fields"

text \<open>An item of the remote JSON array: \<open>{id, name, email}\<close>.\<close>

record remote_user =
  remote_id :: int
  name :: string
  remote_email :: string

record app =
  users :: "user list"
  showModal :: bool
  formData :: form
  error :: string
  editing :: bool
  currentPage :: int

definition usersPerPage :: int where
  "usersPerPage = 5"

definition emptyForm :: form where
  "emptyForm = \<lparr>ident = Blank, firstName = [], lastName = [], email = [], department = []\<rparr>"

text \<open>The initial values of the six \<open>useState\<close> calls.\<close>

definition initial :: app where
  "initial = \<lparr>users = [], showModal = False, formData = emptyForm, error = [],
               editing = False, currentPage = 1\<rparr>"

subsection \<open>JavaScript library functions used by the component\<close>

text \<open>
  \<open>s.split(sep)\<close> for a one-character separator: the pieces between the separators,
  empty pieces included; the result is never empty (\<open>"".split(" ")\<close> is \<open>[""]\<close>).
\<close>

fun split_str :: "char \<Rightarrow> string \<Rightarrow> string list" where
  "split_str sep [] = [[]]"
| "split_str sep (c # cs) =
     (if c = sep then [] # split_str sep cs
      else (case split_str sep cs of
              [] \<Rightarrow> [[c]]
            | t # ts \<Rightarrow> (c # t) # ts))"

text \<open>\<open>xs[i]\<close>: \<open>undefined\<close> (here \<open>None\<close>) out of range.\<close>

definition index :: "'a list \<Rightarrow> nat \<Rightarrow> 'a option" where
  "index xs i = (if i < length xs then Some (xs ! i) else None)"

text \<open>\<open>x || ""\<close> on a string or \<open>undefined\<close>: both \<open>undefined\<close> and \<open>""\<close> are falsy.\<close>

definition or_empty :: "string option \<Rightarrow> string" where
  "or_empty x = (case x of None \<Rightarrow> [] | Some s \<Rightarrow> (if s = [] then [] else s))"

text \<open>
  \<open>xs.slice(start, stop)\<close>: a negative bound counts from the end, both bounds are
  clamped to the array, and the result is empty when the bounds cross.
\<close>

definition slice :: "'a list \<Rightarrow> int \<Rightarrow> int \<Rightarrow> 'a list" where
  "slice xs start stop =
     (let len = int (length xs);
          k = (if start < 0 then max (len + start) 0 else min start len);
          fin = (if stop < 0 then max (len + stop) 0 else min stop len)
      in take (nat (fin - k)) (drop (nat k) xs))"

text \<open>
  \<open>a + b\<close> on Numbers that hold integers. A Number is an IEEE double: the result is
  the exact sum rounded to the nearest double, a tie going to the double with the even
  significand. A double has 53 significant bits, so the doubles around an integer of
  magnitude \<open>m\<close> are the multiples of \<open>ulp m\<close>, which is 1 below \<open>2 ^ 53\<close> and doubles
  with every further bit. (Integers from \<open>2 ^ 1024\<close> on are no Numbers; a sum of an id
  and 1 does not reach them.)
\<close>

function ulp :: "nat \<Rightarrow> nat" where
  "ulp m = (if m < 2 ^ 53 then 1 else 2 * ulp (m div 2))"
  by pat_completeness auto
termination
  by (relation "measure (\<lambda>m. m)") auto

declare ulp.simps [simp del]

definition round_mag :: "nat \<Rightarrow> nat" where
  "round_mag m =
     (let u = ulp m; q = m div u; r = m mod u
      in if 2 * r < u then q * u
         else if u < 2 * r then (q + 1) * u
         else if even q then q * u else (q + 1) * u)"

definition round_double :: "int \<Rightarrow> int" where
  "round_double n = (if n < 0 then - int (round_mag (nat (- n))) else int (round_mag (nat n)))"

definition number_add :: "int \<Rightarrow> int \<Rightarrow> int" where
  "number_add a b = round_double (a + b)"

subsection \<open>Loader\<close>

text \<open>
  The promise of \<open>axios.get\<close> is rejected on a network error and on a status outside
  2xx, and resolved with the parsed body otherwise. The network is the list of answers
  that the endpoint gives to successive requests; a request takes the first one.
\<close>

datatype response = Rejected | Resolved "remote_user list"

text \<open>
  \<open>user.name.split(" ")[0]\<close> and \<open>user.name.split(" ")[1] || ""\<close>. The array of a split
  is never empty, so its element 0 exists (\<open>split_str_not_Nil\<close> below).
\<close>

definition formatUser :: "remote_user \<Rightarrow> user" where
  "formatUser u =
     \<lparr>ident = remote_id u,
      firstName = hd (split_str CHR '' '' (name u)),
      lastName = or_empty (index (split_str CHR '' '' (name u)) 1),
      email = remote_email u,
      department = ''General''\<rparr>"

fun fetchUsers :: "response list \<Rightarrow> app \<Rightarrow> app \<times> response list" where
  "fetchUsers [] st = (st, [])"
| "fetchUsers (Resolved data # net) st = (st\<lparr>users := map formatUser data\<rparr>, net)"
| "fetchUsers (Rejected # net) st = (st\<lparr>error := ''Failed to fetch users.''\<rparr>, net)"

text \<open>The effect hook with no dependencies runs \<open>fetchUsers\<close> once, after the first render.\<close>

definition mount :: "response list \<Rightarrow> app \<times> response list" where
  "mount net = fetchUsers net initial"

subsection \<open>Form controller\<close>

datatype field_name = FirstName | LastName | Email | Department

fun handleFormChange :: "field_name \<Rightarrow> string \<Rightarrow> app \<Rightarrow> app" where
  "handleFormChange FirstName v st = st\<lparr>formData := (formData st)\<lparr>firstName := v\<rparr>\<rparr>"
| "handleFormChange LastName v st = st\<lparr>formData := (formData st)\<lparr>lastName := v\<rparr>\<rparr>"
| "handleFormChange Email v st = st\<lparr>formData := (formData st)\<lparr>email := v\<rparr>\<rparr>"
| "handleFormChange Department v st = st\<lparr>formData := (formData st)\<lparr>department := v\<rparr>\<rparr>"

text \<open>
  \<open>handleOpenModal(user = {})\<close>: the test \<open>if (user.id)\<close> is false for a missing
  user and for the id 0.
\<close>

definition editForm :: "user \<Rightarrow> form" where
  "editForm u = \<lparr>ident = Num (ident u), firstName = firstName u, lastName = lastName u,
                 email = email u, department = department u\<rparr>"

fun handleOpenModal :: "user option \<Rightarrow> app \<Rightarrow> app" where
  "handleOpenModal None st = st\<lparr>editing := False, formData := emptyForm, showModal := True\<rparr>"
| "handleOpenModal (Some u) st =
     (if ident u \<noteq> 0
      then st\<lparr>editing := True, formData := editForm u, showModal := True\<rparr>
      else st\<lparr>editing := False, formData := emptyForm, showModal := True\<rparr>)"

definition handleCloseModal :: "app \<Rightarrow> app" where
  "handleCloseModal st = st\<lparr>showModal := False, error := []\<rparr>"

subsection \<open>Store\<close>

text \<open>
  \<open>users.reduce((max, user) => (user.id > max ? user.id : max), 0)\<close>; the new id is
  \<open>maxId + 1\<close>, an addition of Numbers.
\<close>

definition maxId :: "user list \<Rightarrow> int" where
  "maxId us = foldl (\<lambda>mx u. if ident u > mx then ident u else mx) 0 us"

definition newUser :: "form \<Rightarrow> int \<Rightarrow> user" where
  "newUser fd newId = \<lparr>ident = newId, firstName = firstName fd, lastName = lastName fd,
                       email = email fd, department = department fd\<rparr>"

definition handleAddUser :: "app \<Rightarrow> app" where
  "handleAddUser st =
     (if firstName (formData st) = [] \<or> lastName (formData st) = []
         \<or> email (formData st) = [] \<or> department (formData st) = []
      then st\<lparr>error := ''All fields must be filled out!''\<rparr>
      else st\<lparr>users := users st @ [newUser (formData st) (number_add (maxId (users st)) 1)],
              showModal := False,
              formData := emptyForm\<rparr>)"

text \<open>
  \<open>users.map((user) => (user.id === formData.id ? updatedUser : user))\<close>: a user's id
  is a number, so it is never strictly equal to the blank id of the draft.
\<close>

definition updatedUser :: "form \<Rightarrow> int \<Rightarrow> user" where
  "updatedUser fd i = \<lparr>ident = i, firstName = firstName fd, lastName = lastName fd,
                       email = email fd, department = department fd\<rparr>"

definition handleEditUser :: "app \<Rightarrow> app" where
  "handleEditUser st =
     st\<lparr>users := (case ident (formData st) of
                    Blank \<Rightarrow> map (\<lambda>u. u) (users st)
                  | Num i \<Rightarrow> map (\<lambda>u. if ident u = i then updatedUser (formData st) i else u)
                               (users st)),
        editing := False,
        showModal := False,
        formData := emptyForm\<rparr>"

definition handleDeleteUser :: "int \<Rightarrow> app \<Rightarrow> app" where
  "handleDeleteUser i st = st\<lparr>users := filter (\<lambda>u. ident u \<noteq> i) (users st)\<rparr>"

subsection \<open>Paginator\<close>

definition paginateUsers :: "app \<Rightarrow> user list" where
  "paginateUsers st =
     (let startIndex = (currentPage st - 1) * usersPerPage
      in slice (users st) startIndex (startIndex + usersPerPage))"

text \<open>\<open>Math.ceil(users.length / usersPerPage)\<close>, a division of numbers, not of integers.\<close>

definition pageCount :: "app \<Rightarrow> int" where
  "pageCount st = \<lceil>real (length (users st)) / real_of_int usersPerPage\<rceil>"

text \<open>The page buttons: \<open>[...Array(n).keys()]\<close> is \<open>0, ..., n - 1\<close>, shown as \<open>num + 1\<close>.\<close>

definition pageItems :: "app \<Rightarrow> int list" where
  "pageItems st = map (\<lambda>num. int num + 1) [0..<nat (pageCount st)]"

definition setCurrentPage :: "int \<Rightarrow> app \<Rightarrow> app" where
  "setCurrentPage p st = st\<lparr>currentPage := p\<rparr>"

subsection \<open>An Add interaction\<close>

text \<open>
  Adding through the interface: the Add button opens the modal with an empty draft, the
  four inputs are filled, and Save calls \<open>handleAddUser\<close>.
\<close>

record entry =
  entryFirstName :: string
  entryLastName :: string
  entryEmail :: string
  entryDepartment :: string

definition valid :: "entry \<Rightarrow> bool" where
  "valid e \<longleftrightarrow> entryFirstName e \<noteq> [] \<and> entryLastName e \<noteq> []
               \<and> entryEmail e \<noteq> [] \<and> entryDepartment e \<noteq> []"

definition add :: "entry \<Rightarrow> app \<Rightarrow> app" where
  "add e st =
     handleAddUser
       (handleFormChange Department (entryDepartment e)
         (handleFormChange Email (entryEmail e)
           (handleFormChange LastName (entryLastName e)
             (handleFormChange FirstName (entryFirstName e)
               (handleOpenModal None st)))))"

definition addAll :: "entry list \<Rightarrow> app \<Rightarrow> app" where
  "addAll es st = foldl (\<lambda>s e. add e s) st es"

section \<open>Properties\<close>

subsection \<open>Addition of Numbers\<close>

text \<open>Up to \<open>2 ^ 53\<close> in magnitude every integer is a double, and the sum is exact.\<close>

lemma ulp_small: "m < 2 ^ 53 \<Longrightarrow> ulp m = 1"
  by (subst ulp.simps) simp

lemma ulp_2_53: "ulp (2 ^ 53) = 2"
  by (subst ulp.simps) (simp add: ulp_small)

lemma round_mag_exact:
  assumes "m \<le> 2 ^ 53"
  shows "round_mag m = m"
proof (cases "m < 2 ^ 53")
  case True
  then show ?thesis by (simp add: round_mag_def ulp_small)
next
  case False
  with assms have m: "m = 2 ^ 53" by simp
  show ?thesis unfolding m round_mag_def ulp_2_53 by simp
qed

lemma round_double_exact:
  assumes "\<bar>n\<bar> \<le> 2 ^ 53"
  shows "round_double n = n"
proof -
  have "nat \<bar>n\<bar> \<le> 2 ^ 53" using assms by (simp add: nat_le_iff)
  then have "round_mag (nat \<bar>n\<bar>) = nat \<bar>n\<bar>" by (rule round_mag_exact)
  then show ?thesis by (simp add: round_double_def abs_if split: if_splits)
qed

lemma number_add_exact: "\<bar>a + b\<bar> \<le> 2 ^ 53 \<Longrightarrow> number_add a b = a + b"
  by (simp add: number_add_def round_double_exact)

text \<open>
  From \<open>2 ^ 53\<close> on the doubles are two apart, from \<open>2 ^ 54\<close> on four apart: adding 1
  gives a tie, resolved to the even significand, or is lost.
\<close>

lemma number_add_rounds:
  "number_add 9007199254740992 1 = 9007199254740992
   \<and> number_add 9007199254740994 1 = 9007199254740996
   \<and> number_add 18014398509481984 1 = 18014398509481984"
  by (simp add: number_add_def round_double_def round_mag_def ulp.simps)

subsection \<open>The next id\<close>

text \<open>The \<open>reduce\<close> of \<open>handleAddUser\<close> starts from 0, so it computes the largest of 0 and the ids.\<close>

lemma foldl_max_ident:
  "foldl (\<lambda>mx u. if ident u > mx then ident u else mx) a (us :: user list)
     = Max (insert a (ident ` set us))"
proof (induction us arbitrary: a)
  case Nil
  show ?case by simp
next
  case (Cons u us)
  have step: "(if a < ident u then ident u else a) = max a (ident u)"
    by (simp add: max_def)
  have "Max (insert (max a (ident u)) (ident ` set us))
        = Max (insert a (insert (ident u) (ident ` set us)))"
  proof (cases "ident ` set us = {}")
    case True
    then show ?thesis by simp
  next
    case False
    then show ?thesis by (simp add: max.assoc)
  qed
  with Cons step show ?case by simp
qed

lemma maxId_Max: "maxId us = Max (insert 0 (ident ` set us))"
  unfolding maxId_def by (rule foldl_max_ident)

lemma maxId_nonneg: "0 \<le> maxId us"
  by (simp add: maxId_Max)

lemma maxId_ge: "u \<in> set us \<Longrightarrow> ident u \<le> maxId us"
  by (simp add: maxId_Max)

lemma maxId_snoc: "maxId (us @ [u]) = max (maxId us) (ident u)"
  by (simp add: maxId_def max_def)

lemma maxId_fresh: "maxId us + 1 \<notin> ident ` set us"
proof
  assume "maxId us + 1 \<in> ident ` set us"
  then obtain u where "u \<in> set us" and "ident u = maxId us + 1" by auto
  then show False using maxId_ge [of u us] by simp
qed

lemma maxId_nonneg_Max:
  assumes "u \<in> set us" and "0 \<le> ident u"
  shows "maxId us = Max (ident ` set us)"
proof -
  have ne: "ident ` set us \<noteq> {}" using assms by auto
  have "ident u \<le> Max (ident ` set us)" using assms by simp
  then have "0 \<le> Max (ident ` set us)" using assms by linarith
  then show ?thesis using ne by (simp add: maxId_Max max_def)
qed

lemma maxId_less:
  assumes "\<forall>u \<in> set us. ident u < 2 ^ 53"
  shows "maxId us < 2 ^ 53"
  using assms by (simp add: maxId_Max)

text \<open>Below \<open>2 ^ 53\<close> the next id is the largest of 0 and the ids, plus 1, exactly.\<close>

lemma next_id_exact:
  assumes "maxId us < 2 ^ 53"
  shows "number_add (maxId us) 1 = maxId us + 1"
proof -
  have "\<bar>maxId us + 1\<bar> \<le> 2 ^ 53" using assms maxId_nonneg [of us] by simp
  then show ?thesis by (rule number_add_exact)
qed

lemma users_handleAddUser:
  assumes "firstName (formData st) \<noteq> []" "lastName (formData st) \<noteq> []"
    "email (formData st) \<noteq> []" "department (formData st) \<noteq> []"
  shows "users (handleAddUser st)
         = users st @ [newUser (formData st) (number_add (maxId (users st)) 1)]"
  using assms by (simp add: handleAddUser_def)

text \<open>
  C1 (as amended). When a draft with four non-empty fields is added, the new record, with
  the draft's four field values, is appended at the end of the list, which is otherwise
  unchanged. While every existing id is below \<open>2 ^ 53\<close>, where adding 1 to a Number is
  exact, its id is one more than the largest of 0 and the existing ids: 1 for an empty
  list, the largest existing id plus 1 when some existing id is not negative, and 1 when
  all existing ids are negative. A list with the ids 1 and 2 yields the id 3 and a list
  of length 3.
\<close>

theorem handleAddUser_next_id:
  assumes "firstName (formData st) \<noteq> []" and "lastName (formData st) \<noteq> []"
    and "email (formData st) \<noteq> []" and "department (formData st) \<noteq> []"
  shows "users (handleAddUser st)
           = users st @ [\<lparr>ident = ident (last (users (handleAddUser st))),
                          firstName = firstName (formData st),
                          lastName = lastName (formData st),
                          email = email (formData st),
                          department = department (formData st)\<rparr>]
         \<and> ((\<forall>u \<in> set (users st). ident u < 2 ^ 53) \<longrightarrow>
              ident (last (users (handleAddUser st)))
                = Max (insert 0 (ident ` set (users st))) + 1)
         \<and> (users st = [] \<longrightarrow> ident (last (users (handleAddUser st))) = 1)
         \<and> ((\<exists>u \<in> set (users st). 0 \<le> ident u) \<and> (\<forall>u \<in> set (users st). ident u < 2 ^ 53)
              \<longrightarrow> ident (last (users (handleAddUser st))) = Max (ident ` set (users st)) + 1)
         \<and> ((\<forall>u \<in> set (users st). ident u < 0) \<longrightarrow>
              ident (last (users (handleAddUser st))) = 1)
         \<and> (map ident (users st) = [1, 2] \<longrightarrow>
              ident (last (users (handleAddUser st))) = 3
              \<and> length (users (handleAddUser st)) = 3)"
proof -
  let ?n = "newUser (formData st) (number_add (maxId (users st)) 1)"
  have app: "users (handleAddUser st) = users st @ [?n]"
    using assms by (rule users_handleAddUser)
  have idn: "ident (last (users (handleAddUser st))) = number_add (maxId (users st)) 1"
    by (simp add: app newUser_def)
  have c1: "users (handleAddUser st)
           = users st @ [\<lparr>ident = ident (last (users (handleAddUser st))),
                          firstName = firstName (formData st),
                          lastName = lastName (formData st),
                          email = email (formData st),
                          department = department (formData st)\<rparr>]"
    unfolding idn by (simp add: app newUser_def)
  have small: "ident (last (users (handleAddUser st))) = maxId (users st) + 1"
    if "maxId (users st) < 2 ^ 53"
    using that by (simp add: idn next_id_exact)
  have c2: "(\<forall>u \<in> set (users st). ident u < 2 ^ 53) \<longrightarrow>
              ident (last (users (handleAddUser st)))
                = Max (insert 0 (ident ` set (users st))) + 1"
  proof
    assume "\<forall>u \<in> set (users st). ident u < 2 ^ 53"
    then have "maxId (users st) < 2 ^ 53" by (rule maxId_less)
    then have "ident (last (users (handleAddUser st))) = maxId (users st) + 1"
      by (rule small)
    then show "ident (last (users (handleAddUser st)))
                = Max (insert 0 (ident ` set (users st))) + 1"
      by (simp only: maxId_Max)
  qed
  have c3: "users st = [] \<longrightarrow> ident (last (users (handleAddUser st))) = 1"
  proof
    assume e: "users st = []"
    then have "maxId (users st) = 0" by (simp add: maxId_def)
    then show "ident (last (users (handleAddUser st))) = 1"
      using small by simp
  qed
  have c4: "(\<exists>u \<in> set (users st). 0 \<le> ident u) \<and> (\<forall>u \<in> set (users st). ident u < 2 ^ 53)
              \<longrightarrow> ident (last (users (handleAddUser st))) = Max (ident ` set (users st)) + 1"
  proof
    assume h: "(\<exists>u \<in> set (users st). 0 \<le> ident u)
        \<and> (\<forall>u \<in> set (users st). ident u < 2 ^ 53)"
    then have "\<forall>u \<in> set (users st). ident u < 2 ^ 53" by blast
    then have "maxId (users st) < 2 ^ 53" by (rule maxId_less)
    then have "ident (last (users (handleAddUser st))) = maxId (users st) + 1"
      by (rule small)
    moreover have "maxId (users st) = Max (ident ` set (users st))"
      using h maxId_nonneg_Max by blast
    ultimately show "ident (last (users (handleAddUser st))) = Max (ident ` set (users st)) + 1"
      by simp
  qed
  have c5: "(\<forall>u \<in> set (users st). ident u < 0) \<longrightarrow>
              ident (last (users (handleAddUser st))) = 1"
  proof
    assume neg: "\<forall>u \<in> set (users st). ident u < 0"
    have "maxId (users st) \<le> 0"
      unfolding maxId_Max using neg by (auto simp: less_imp_le)
    with maxId_nonneg [of "users st"] have "maxId (users st) = 0" by linarith
    then show "ident (last (users (handleAddUser st))) = 1" using small by simp
  qed
  have c6: "map ident (users st) = [1, 2] \<longrightarrow>
              ident (last (users (handleAddUser st))) = 3
              \<and> length (users (handleAddUser st)) = 3"
  proof
    assume m: "map ident (users st) = [1, 2]"
    then have len: "length (users st) = 2"
      by (metis length_map length_Cons list.size(3) numeral_2_eq_2)
    have "ident ` set (users st) = set (map ident (users st))" by simp
    also have "\<dots> = {1, 2}" by (simp add: m)
    finally have "maxId (users st) = 2" by (simp add: maxId_Max)
    then have "ident (last (users (handleAddUser st))) = 3" using small by simp
    moreover have "length (users (handleAddUser st)) = 3" by (simp add: app len)
    ultimately show "ident (last (users (handleAddUser st))) = 3
              \<and> length (users (handleAddUser st)) = 3" by simp
  qed
  from c1 c2 c3 c4 c5 c6 show ?thesis by blast
qed

theorem handleAddUser_next_id_witness:
  "users (handleAddUser
     \<lparr>users = [\<lparr>ident = 1, firstName = ''L'', lastName = ''G'', email = ''l@g.biz'',
                   department = ''General''\<rparr>,
                 \<lparr>ident = 2, firstName = ''E'', lastName = ''H'', email = ''e@h.tv'',
                   department = ''General''\<rparr>],
      showModal = True,
      formData = \<lparr>ident = Blank, firstName = ''A'', lastName = ''B'', email = ''a@b.com'',
                   department = ''X''\<rparr>,
      error = [], editing = False, currentPage = 1\<rparr>)
   = [\<lparr>ident = 1, firstName = ''L'', lastName = ''G'', email = ''l@g.biz'',
        department = ''General''\<rparr>,
      \<lparr>ident = 2, firstName = ''E'', lastName = ''H'', email = ''e@h.tv'',
        department = ''General''\<rparr>,
      \<lparr>ident = 3, firstName = ''A'', lastName = ''B'', email = ''a@b.com'',
        department = ''X''\<rparr>]"
proof -
  let ?st = "\<lparr>users = [\<lparr>ident = 1, firstName = ''L'', lastName = ''G'', email = ''l@g.biz'',
                   department = ''General''\<rparr>,
                 \<lparr>ident = 2, firstName = ''E'', lastName = ''H'', email = ''e@h.tv'',
                   department = ''General''\<rparr>],
      showModal = True,
      formData = \<lparr>ident = Blank, firstName = ''A'', lastName = ''B'', email = ''a@b.com'',
                   department = ''X''\<rparr>,
      error = [], editing = False, currentPage = 1\<rparr>"
  have v: "firstName (formData ?st) \<noteq> []" "lastName (formData ?st) \<noteq> []"
    "email (formData ?st) \<noteq> []" "department (formData ?st) \<noteq> []"
    by simp_all
  note t = handleAddUser_next_id [of ?st, OF v]
  have b: "\<forall>u \<in> set (users ?st). ident u < 2 ^ 53" by simp
  from t b have "ident (last (users (handleAddUser ?st)))
      = Max (insert 0 (ident ` set (users ?st))) + 1"
    by blast
  then have i: "ident (last (users (handleAddUser ?st))) = 3" by simp
  from t have "users (handleAddUser ?st)
           = users ?st @ [\<lparr>ident = ident (last (users (handleAddUser ?st))),
                          firstName = firstName (formData ?st),
                          lastName = lastName (formData ?st),
                          email = email (formData ?st),
                          department = department (formData ?st)\<rparr>]"
    by blast
  then have "users (handleAddUser ?st)
           = users ?st @ [\<lparr>ident = 3,
                          firstName = firstName (formData ?st),
                          lastName = lastName (formData ?st),
                          email = email (formData ?st),
                          department = department (formData ?st)\<rparr>]"
    by (simp only: i)
  then show ?thesis by simp
qed

text \<open>
  The claim as it was stated fails on a list whose ids are all negative: with the single
  id -5 the new id is 1, while the largest existing id plus 1 is -4. It also fails from
  \<open>2 ^ 53 = 9007199254740992\<close> on, where adding 1 to a Number is no longer exact: with the
  single id \<open>2 ^ 53\<close> the new id is \<open>2 ^ 53\<close> again.
\<close>

theorem handleAddUser_next_id_counterexample:
  "ident (last (users (handleAddUser
     \<lparr>users = [\<lparr>ident = - 5, firstName = ''L'', lastName = ''G'', email = ''l@g.biz'',
                   department = ''General''\<rparr>],
      showModal = True,
      formData = \<lparr>ident = Blank, firstName = ''A'', lastName = ''B'', email = ''a@b.com'',
                   department = ''X''\<rparr>,
      error = [], editing = False, currentPage = 1\<rparr>))) = 1
   \<and> Max (ident ` set
       [\<lparr>ident = - 5 :: int, firstName = ''L'', lastName = ''G'', email = ''l@g.biz'',
          department = ''General''\<rparr>]) + 1 = - 4
   \<and> ident (last (users (handleAddUser
     \<lparr>users = [\<lparr>ident = 9007199254740992, firstName = ''L'', lastName = ''G'',
                   email = ''l@g.biz'', department = ''General''\<rparr>],
      showModal = True,
      formData = \<lparr>ident = Blank, firstName = ''A'', lastName = ''B'', email = ''a@b.com'',
                   department = ''X''\<rparr>,
      error = [], editing = False, currentPage = 1\<rparr>))) = 9007199254740992
   \<and> Max (ident ` set
       [\<lparr>ident = 9007199254740992 :: int, firstName = ''L'', lastName = ''G'',
          email = ''l@g.biz'', department = ''General''\<rparr>]) + 1 = 9007199254740993"
  by (simp add: handleAddUser_def newUser_def maxId_def number_add_def round_double_def
      round_mag_def ulp.simps)

subsection \<open>Sequences of additions\<close>

text \<open>
  An Add interaction with four non-empty inputs appends one record; below \<open>2 ^ 53\<close> its
  id is the largest of 0 and the ids, plus 1.
\<close>

lemma formData_fill:
  "formData (handleFormChange Department d
      (handleFormChange Email c
        (handleFormChange LastName b
          (handleFormChange FirstName a (handleOpenModal None st)))))
   = \<lparr>ident = Blank, firstName = a, lastName = b, email = c, department = d\<rparr>"
  by (simp add: emptyForm_def)

lemma users_fill:
  "users (handleFormChange Department d
      (handleFormChange Email c
        (handleFormChange LastName b
          (handleFormChange FirstName a (handleOpenModal None st)))))
   = users st"
  by simp

lemma users_add:
  assumes "valid e" and "maxId (users st) < 2 ^ 53"
  shows "users (add e st)
         = users st @ [\<lparr>ident = maxId (users st) + 1, firstName = entryFirstName e,
                         lastName = entryLastName e, email = entryEmail e,
                         department = entryDepartment e\<rparr>]"
proof -
  let ?s = "handleFormChange Department (entryDepartment e)
         (handleFormChange Email (entryEmail e)
           (handleFormChange LastName (entryLastName e)
             (handleFormChange FirstName (entryFirstName e)
               (handleOpenModal None st))))"
  have fd: "formData ?s = \<lparr>ident = Blank, firstName = entryFirstName e,
      lastName = entryLastName e, email = entryEmail e, department = entryDepartment e\<rparr>"
    by (rule formData_fill)
  have us: "users ?s = users st" by (rule users_fill)
  have "users (handleAddUser ?s)
      = users ?s @ [newUser (formData ?s) (number_add (maxId (users ?s)) 1)]"
    using assms(1) by (intro users_handleAddUser) (simp_all add: fd valid_def)
  then show ?thesis
    unfolding add_def by (simp add: fd us newUser_def next_id_exact [OF assms(2)])
qed

lemma addAll_Cons: "addAll (e # es) st = addAll es (add e st)"
  by (simp add: addAll_def)

lemma addAll_Nil: "addAll [] st = st"
  by (simp add: addAll_def)

lemma addAll_append: "addAll (xs @ ys) st = addAll ys (addAll xs st)"
  by (simp add: addAll_def)

lemma addAll_appends:
  assumes "\<forall>e \<in> set es. valid e" and "maxId (users st) + int (length es) \<le> 2 ^ 53"
  shows "\<exists>news. users (addAll es st) = users st @ news
           \<and> length news = length es
           \<and> sorted_wrt (<) (map ident news)
           \<and> (\<forall>n \<in> set news. maxId (users st) < ident n)
           \<and> maxId (users (addAll es st)) = maxId (users st) + int (length es)"
  using assms
proof (induction es arbitrary: st)
  case Nil
  show ?case by (simp add: addAll_Nil)
next
  case (Cons e es)
  let ?n = "\<lparr>ident = maxId (users st) + 1, firstName = entryFirstName e,
              lastName = entryLastName e, email = entryEmail e,
              department = entryDepartment e\<rparr>"
  have small: "maxId (users st) < 2 ^ 53" using Cons.prems(2) by simp
  have step: "users (add e st) = users st @ [?n]"
    using Cons.prems(1) small by (simp add: users_add)
  have mx: "maxId (users (add e st)) = maxId (users st) + 1"
    by (simp add: step maxId_snoc)
  have bound: "maxId (users (add e st)) + int (length es) \<le> 2 ^ 53"
    using Cons.prems(2) by (simp add: mx)
  have v: "\<forall>e \<in> set es. valid e" using Cons.prems(1) by simp
  from Cons.IH [OF v bound]
  obtain news where news: "users (addAll es (add e st)) = users (add e st) @ news"
      "length news = length es" "sorted_wrt (<) (map ident news)"
      "\<forall>n \<in> set news. maxId (users (add e st)) < ident n"
      "maxId (users (addAll es (add e st))) = maxId (users (add e st)) + int (length es)"
    by blast
  have "users (addAll (e # es) st) = users st @ (?n # news)"
    by (simp add: addAll_Cons news(1) step)
  moreover have "length (?n # news) = length (e # es)"
    by (simp add: news(2))
  moreover have "sorted_wrt (<) (map ident (?n # news))"
    using news(3) news(4) by (simp add: mx)
  moreover have "\<forall>n \<in> set (?n # news). maxId (users st) < ident n"
    using news(4) by (auto simp: mx)
  moreover have "maxId (users (addAll (e # es) st)) = maxId (users st) + int (length (e # es))"
    by (simp add: addAll_Cons news(5) mx)
  ultimately show ?case by blast
qed

lemma distinct_ids_append:
  assumes "distinct (map ident us)" and "sorted_wrt (<) (map ident news)"
    and "\<forall>n \<in> set news. maxId us < ident n"
  shows "distinct (map ident (us @ news))"
proof -
  have d2: "distinct (map ident news)"
    using assms(2) by (simp add: strict_sorted_iff)
  have "ident ` set us \<inter> ident ` set news = {}"
  proof (rule ccontr)
    assume "ident ` set us \<inter> ident ` set news \<noteq> {}"
    then obtain u n where "u \<in> set us" "n \<in> set news" "ident u = ident n" by auto
    then show False using maxId_ge [of u us] assms(3) by fastforce
  qed
  then show ?thesis using assms(1) d2 by simp
qed

lemma addAll_prefix:
  assumes "\<forall>e \<in> set es. valid e" and "k \<le> length es"
    and "maxId (users st) + int (length es) \<le> 2 ^ 53"
  shows "users (addAll (take k es) st) = take (length (users st) + k) (users (addAll es st))"
proof -
  have v1: "\<forall>e \<in> set (take k es). valid e"
    using assms(1) by (meson in_set_takeD)
  have v2: "\<forall>e \<in> set (drop k es). valid e"
    using assms(1) by (meson in_set_dropD)
  have b1: "maxId (users st) + int (length (take k es)) \<le> 2 ^ 53"
    using assms(2) assms(3) by simp
  from addAll_appends [OF v1 b1]
  obtain n1 where n1: "users (addAll (take k es) st) = users st @ n1"
      "length n1 = length (take k es)"
      "maxId (users (addAll (take k es) st)) = maxId (users st) + int (length (take k es))"
    by blast
  have b2: "maxId (users (addAll (take k es) st)) + int (length (drop k es)) \<le> 2 ^ 53"
    using assms(2) assms(3) by (simp add: n1(3))
  from addAll_appends [OF v2 b2]
  obtain n2 where n2: "users (addAll (drop k es) (addAll (take k es) st))
      = users (addAll (take k es) st) @ n2" by blast
  have "addAll es st = addAll (drop k es) (addAll (take k es) st)"
    using addAll_append [of "take k es" "drop k es" st] by simp
  then have "users (addAll es st) = users (addAll (take k es) st) @ n2"
    using n2 by simp
  moreover have "length (users (addAll (take k es) st)) = length (users st) + k"
    using n1 assms(2) by simp
  ultimately show ?thesis by simp
qed

text \<open>
  C2 (as amended). Start from a list with unique ids and perform a sequence of Add
  interactions whose four inputs are all non-empty, so short that the largest of 0 and
  the ids in the list, plus the number of interactions, is at most \<open>2 ^ 53\<close>: every
  addition of 1 to an id is then exact. After each interaction the list is the list
  before it extended at the end (the state after the first \<open>k\<close> interactions is a prefix
  of the final list) and its ids are unique; every interaction adds one record; and the
  ids of the added records, in the order of their addition, are strictly increasing.
\<close>

theorem addAll_ids_increasing_unique:
  assumes "distinct (map ident (users st))" and "\<forall>e \<in> set es. valid e"
    and "Max (insert 0 (ident ` set (users st))) + int (length es) \<le> 2 ^ 53"
  shows "(\<forall>k \<le> length es.
            users (addAll (take k es) st)
              = take (length (users st) + k) (users (addAll es st))
            \<and> distinct (map ident (users (addAll (take k es) st))))
         \<and> length (users (addAll es st)) = length (users st) + length es
         \<and> sorted_wrt (<) (map ident (drop (length (users st)) (users (addAll es st))))"
proof -
  have bound: "maxId (users st) + int (length es) \<le> 2 ^ 53"
    using assms(3) by (simp only: maxId_Max)
  from addAll_appends [OF assms(2) bound]
  obtain news where news: "users (addAll es st) = users st @ news"
      "length news = length es" "sorted_wrt (<) (map ident news)" by blast
  have a: "\<forall>k \<le> length es.
            users (addAll (take k es) st)
              = take (length (users st) + k) (users (addAll es st))
            \<and> distinct (map ident (users (addAll (take k es) st)))"
  proof (intro allI impI conjI)
    fix k assume k: "k \<le> length es"
    show "users (addAll (take k es) st)
              = take (length (users st) + k) (users (addAll es st))"
      using assms(2) k bound by (rule addAll_prefix)
    have v1: "\<forall>e \<in> set (take k es). valid e"
      using assms(2) by (meson in_set_takeD)
    have b1: "maxId (users st) + int (length (take k es)) \<le> 2 ^ 53"
      using k bound by simp
    from addAll_appends [OF v1 b1]
    obtain n1 where n1: "users (addAll (take k es) st) = users st @ n1"
      "sorted_wrt (<) (map ident n1)" "\<forall>n \<in> set n1. maxId (users st) < ident n" by blast
    show "distinct (map ident (users (addAll (take k es) st)))"
      unfolding n1(1) using assms(1) n1(2) n1(3) by (rule distinct_ids_append)
  qed
  have b: "length (users (addAll es st)) = length (users st) + length es"
    by (simp add: news(1) news(2))
  have c: "sorted_wrt (<) (map ident (drop (length (users st)) (users (addAll es st))))"
    by (simp add: news(1) news(3))
  from a b c show ?thesis by blast
qed

theorem addAll_ids_increasing_unique_witness:
  "distinct (map ident [\<lparr>ident = 7 :: int, firstName = ''Jane'', lastName = ''Doe'',
                          email = ''j@d.com'', department = ''General''\<rparr>,
                        \<lparr>ident = 3, firstName = ''E'', lastName = ''H'', email = ''e@h.tv'',
                          department = ''General''\<rparr>])
   \<and> valid \<lparr>entryFirstName = ''A'', entryLastName = ''B'', entryEmail = ''a@b.com'',
              entryDepartment = ''X''\<rparr>
   \<and> valid \<lparr>entryFirstName = ''C'', entryLastName = ''D'', entryEmail = ''c@d.com'',
              entryDepartment = ''Y''\<rparr>
   \<and> Max (insert 0 (ident ` set
        [\<lparr>ident = 7 :: int, firstName = ''Jane'', lastName = ''Doe'',
           email = ''j@d.com'', department = ''General''\<rparr>,
         \<lparr>ident = 3, firstName = ''E'', lastName = ''H'', email = ''e@h.tv'',
           department = ''General''\<rparr>])) + 2 \<le> 2 ^ 53
   \<and> map ident (users (addAll
        [\<lparr>entryFirstName = ''A'', entryLastName = ''B'', entryEmail = ''a@b.com'',
           entryDepartment = ''X''\<rparr>,
         \<lparr>entryFirstName = ''C'', entryLastName = ''D'', entryEmail = ''c@d.com'',
           entryDepartment = ''Y''\<rparr>]
        (initial\<lparr>users :=
           [\<lparr>ident = 7, firstName = ''Jane'', lastName = ''Doe'', email = ''j@d.com'',
              department = ''General''\<rparr>,
            \<lparr>ident = 3, firstName = ''E'', lastName = ''H'', email = ''e@h.tv'',
              department = ''General''\<rparr>]\<rparr>))) = [7, 3, 8, 9]
   \<and> sorted_wrt (<) (map ident (drop 2 (users (addAll
        [\<lparr>entryFirstName = ''A'', entryLastName = ''B'', entryEmail = ''a@b.com'',
           entryDepartment = ''X''\<rparr>,
         \<lparr>entryFirstName = ''C'', entryLastName = ''D'', entryEmail = ''c@d.com'',
           entryDepartment = ''Y''\<rparr>]
        (initial\<lparr>users :=
           [\<lparr>ident = 7, firstName = ''Jane'', lastName = ''Doe'', email = ''j@d.com'',
              department = ''General''\<rparr>,
            \<lparr>ident = 3, firstName = ''E'', lastName = ''H'', email = ''e@h.tv'',
              department = ''General''\<rparr>]\<rparr>)))))"
  using addAll_ids_increasing_unique
    [of "initial\<lparr>users :=
           [\<lparr>ident = 7, firstName = ''Jane'', lastName = ''Doe'', email = ''j@d.com'',
              department = ''General''\<rparr>,
            \<lparr>ident = 3, firstName = ''E'', lastName = ''H'', email = ''e@h.tv'',
              department = ''General''\<rparr>]\<rparr>"
        "[\<lparr>entryFirstName = ''A'', entryLastName = ''B'', entryEmail = ''a@b.com'',
           entryDepartment = ''X''\<rparr>,
         \<lparr>entryFirstName = ''C'', entryLastName = ''D'', entryEmail = ''c@d.com'',
           entryDepartment = ''Y''\<rparr>]"]
  by (simp add: valid_def addAll_def add_def handleAddUser_def newUser_def maxId_def
      initial_def emptyForm_def number_add_exact)

text \<open>
  The claim as it was stated fails when an id reaches \<open>2 ^ 53 = 9007199254740992\<close>:
  from the single id \<open>2 ^ 53 - 1\<close>, two Add interactions with non-empty inputs both
  assign the id \<open>2 ^ 53\<close>, so the added ids are not strictly increasing and the ids of
  the list are no longer unique.
\<close>

theorem addAll_ids_increasing_unique_counterexample:
  "distinct (map ident [\<lparr>ident = 9007199254740991 :: int, firstName = ''L'',
       lastName = ''G'', email = ''l@g.biz'', department = ''General''\<rparr>])
   \<and> valid \<lparr>entryFirstName = ''A'', entryLastName = ''B'', entryEmail = ''a@b.com'',
              entryDepartment = ''X''\<rparr>
   \<and> valid \<lparr>entryFirstName = ''C'', entryLastName = ''D'', entryEmail = ''c@d.com'',
              entryDepartment = ''Y''\<rparr>
   \<and> map ident (users (addAll
        [\<lparr>entryFirstName = ''A'', entryLastName = ''B'', entryEmail = ''a@b.com'',
           entryDepartment = ''X''\<rparr>,
         \<lparr>entryFirstName = ''C'', entryLastName = ''D'', entryEmail = ''c@d.com'',
           entryDepartment = ''Y''\<rparr>]
        (initial\<lparr>users :=
           [\<lparr>ident = 9007199254740991, firstName = ''L'', lastName = ''G'',
              email = ''l@g.biz'', department = ''General''\<rparr>]\<rparr>)))
       = [9007199254740991, 9007199254740992, 9007199254740992]
   \<and> \<not> distinct (map ident (users (addAll
        [\<lparr>entryFirstName = ''A'', entryLastName = ''B'', entryEmail = ''a@b.com'',
           entryDepartment = ''X''\<rparr>,
         \<lparr>entryFirstName = ''C'', entryLastName = ''D'', entryEmail = ''c@d.com'',
           entryDepartment = ''Y''\<rparr>]
        (initial\<lparr>users :=
           [\<lparr>ident = 9007199254740991, firstName = ''L'', lastName = ''G'',
              email = ''l@g.biz'', department = ''General''\<rparr>]\<rparr>))))
   \<and> \<not> sorted_wrt (<) (map ident (drop 1 (users (addAll
        [\<lparr>entryFirstName = ''A'', entryLastName = ''B'', entryEmail = ''a@b.com'',
           entryDepartment = ''X''\<rparr>,
         \<lparr>entryFirstName = ''C'', entryLastName = ''D'', entryEmail = ''c@d.com'',
           entryDepartment = ''Y''\<rparr>]
        (initial\<lparr>users :=
           [\<lparr>ident = 9007199254740991, firstName = ''L'', lastName = ''G'',
              email = ''l@g.biz'', department = ''General''\<rparr>]\<rparr>)))))"
  by (simp add: valid_def addAll_def add_def handleAddUser_def newUser_def maxId_def
      initial_def emptyForm_def number_add_def round_double_def round_mag_def ulp.simps)

subsection \<open>Pagination\<close>

text \<open>
  For a page number from 1 on, the bounds of the slice are not negative, and the slice is
  the five records after the first \<open>(page - 1) * 5\<close>, or as many as are left.
\<close>

lemma slice_page:
  assumes "0 \<le> s"
  shows "slice xs s (s + usersPerPage) = take 5 (drop (nat s) xs)"
proof (cases "s \<le> int (length xs)")
  case True
  then have "slice xs s (s + usersPerPage)
      = take (nat (min (s + 5) (int (length xs)) - s)) (drop (nat s) xs)"
    using assms by (simp add: slice_def usersPerPage_def Let_def min_def)
  also have "\<dots> = take (min 5 (length (drop (nat s) xs))) (drop (nat s) xs)"
  proof -
    have "nat (min (s + 5) (int (length xs)) - s) = min 5 (length xs - nat s)"
      using assms True by linarith
    then show ?thesis by simp
  qed
  also have "\<dots> = take 5 (drop (nat s) xs)"
    by (simp add: min_def)
  finally show ?thesis .
next
  case False
  then show ?thesis
    using assms by (simp add: slice_def usersPerPage_def Let_def min_def)
qed

lemma paginateUsers_page:
  assumes "1 \<le> currentPage st"
  shows "paginateUsers st = take 5 (drop (nat ((currentPage st - 1) * 5)) (users st))"
proof -
  have "0 \<le> (currentPage st - 1) * usersPerPage"
    using assms by (simp add: usersPerPage_def)
  then have "paginateUsers st
      = take 5 (drop (nat ((currentPage st - 1) * usersPerPage)) (users st))"
    unfolding paginateUsers_def Let_def by (rule slice_page)
  then show ?thesis by (simp add: usersPerPage_def)
qed

text \<open>
  The ceiling of the quotient is the least number of pages of five that hold all records.
\<close>

lemma pageCount_div: "pageCount st = (int (length (users st)) + 4) div 5"
proof -
  have "pageCount st = \<lceil>real_of_int (int (length (users st))) / real_of_int 5\<rceil>"
    by (simp add: pageCount_def usersPerPage_def)
  also have "\<dots> = - (- int (length (users st)) div 5)"
    by (rule ceiling_divide_eq_div)
  also have "\<dots> = (int (length (users st)) + 4) div 5"
    by presburger
  finally show ?thesis .
qed

lemma pageCount_bounds:
  "int (length (users st)) \<le> 5 * pageCount st \<and> 5 * pageCount st < int (length (users st)) + 5"
  unfolding pageCount_div by presburger

lemma pageItems_upto: "pageItems st = [1..pageCount st]"
proof -
  have "map (\<lambda>num. int num + 1) [0..<n] = [1..int n]" for n
  proof (induction n)
    case 0
    show ?case by simp
  next
    case (Suc n)
    have "[1..int (Suc n)] = [1..int n] @ [int n + 1]"
      using upto_rec2 [of 1 "int n + 1"] by (simp add: add.commute)
    with Suc show ?case by simp
  qed
  from this [of "nat (pageCount st)"] have "pageItems st = [1..int (nat (pageCount st))]"
    by (simp add: pageItems_def)
  moreover have "0 \<le> pageCount st" using pageCount_bounds [of st] by linarith
  ultimately show ?thesis by simp
qed

lemma concat_pages:
  "concat (map (\<lambda>k. take 5 (drop (k * 5) xs)) [0..<m]) = take (m * 5) xs"
proof (induction m)
  case 0
  show ?case by simp
next
  case (Suc m)
  have "take (Suc m * 5) xs = take (m * 5) xs @ take 5 (drop (m * 5) xs)"
    using take_add [of "m * 5" 5 xs] by (simp add: add.commute)
  with Suc show ?case by simp
qed

lemma page_of_item:
  "paginateUsers (setCurrentPage (int k + 1) st) = take 5 (drop (k * 5) (users st))"
proof -
  have "paginateUsers (setCurrentPage (int k + 1) st)
      = take 5 (drop (nat ((currentPage (setCurrentPage (int k + 1) st) - 1) * 5))
          (users (setCurrentPage (int k + 1) st)))"
    by (rule paginateUsers_page) (simp add: setCurrentPage_def)
  also have "\<dots> = take 5 (drop (k * 5) (users st))"
    by (simp add: setCurrentPage_def nat_mult_distrib)
  finally show ?thesis .
qed

lemma concat_pageItems:
  "concat (map (\<lambda>p. paginateUsers (setCurrentPage p st)) (pageItems st)) = users st"
proof -
  let ?m = "nat (pageCount st)"
  have "concat (map (\<lambda>p. paginateUsers (setCurrentPage p st)) (pageItems st))
      = concat (map (\<lambda>k. take 5 (drop (k * 5) (users st))) [0..<?m])"
    by (simp add: pageItems_def comp_def page_of_item)
  also have "\<dots> = take (?m * 5) (users st)" by (rule concat_pages)
  also have "\<dots> = users st"
  proof -
    have "length (users st) \<le> ?m * 5" using pageCount_bounds [of st] by linarith
    then show ?thesis by simp
  qed
  finally show ?thesis .
qed

lemma page_past_end:
  assumes "pageCount st < currentPage st"
  shows "paginateUsers st = []"
proof -
  have p: "1 \<le> currentPage st" using assms pageCount_bounds [of st] by linarith
  have "pageCount st \<le> currentPage st - 1" using assms by simp
  then have "5 * pageCount st \<le> 5 * (currentPage st - 1)" by simp
  then have "int (length (users st)) \<le> 5 * (currentPage st - 1)"
    using pageCount_bounds [of st, THEN conjunct1] by (rule order_trans [rotated])
  then have "int (length (users st)) \<le> (currentPage st - 1) * 5"
    by (simp add: mult.commute)
  then have "length (users st) \<le> nat ((currentPage st - 1) * 5)" by linarith
  then show ?thesis by (simp add: paginateUsers_page [OF p])
qed

text \<open>
  C3. With the page size 5, the visible slice of page \<open>p\<close> is
  \<open>users.slice((p - 1) * 5, (p - 1) * 5 + 5)\<close>, which for \<open>p \<ge> 1\<close> is the five records
  after the first \<open>(p - 1) * 5\<close>; the number of pages is the ceiling of \<open>N / 5\<close>, the
  least \<open>c\<close> with \<open>N \<le> 5 * c\<close>, and the page buttons are numbered from 1 to it; the
  slices of these pages, concatenated in order, are the whole list; a current page beyond
  the number of pages shows an empty slice; and deleting a record leaves the current page
  as it is, so that after the list has shrunk below the current page the slice is empty.
\<close>

theorem pagination_slices:
  "paginateUsers st
     = slice (users st) ((currentPage st - 1) * 5) ((currentPage st - 1) * 5 + 5)
   \<and> (1 \<le> currentPage st \<longrightarrow>
        paginateUsers st = take 5 (drop (nat ((currentPage st - 1) * 5)) (users st)))
   \<and> pageCount st = \<lceil>real (length (users st)) / 5\<rceil>
   \<and> int (length (users st)) \<le> 5 * pageCount st
   \<and> 5 * pageCount st < int (length (users st)) + 5
   \<and> pageItems st = [1..pageCount st]
   \<and> concat (map (\<lambda>p. paginateUsers (setCurrentPage p st)) (pageItems st)) = users st
   \<and> (pageCount st < currentPage st \<longrightarrow> paginateUsers st = [])
   \<and> currentPage (handleDeleteUser i st) = currentPage st
   \<and> (pageCount (handleDeleteUser i st) < currentPage st \<longrightarrow>
        paginateUsers (handleDeleteUser i st) = [])"
proof -
  have a: "paginateUsers st
     = slice (users st) ((currentPage st - 1) * 5) ((currentPage st - 1) * 5 + 5)"
    by (simp add: paginateUsers_def usersPerPage_def Let_def)
  have b: "1 \<le> currentPage st \<longrightarrow>
        paginateUsers st = take 5 (drop (nat ((currentPage st - 1) * 5)) (users st))"
    using paginateUsers_page by blast
  have c: "pageCount st = \<lceil>real (length (users st)) / 5\<rceil>"
    by (simp add: pageCount_def usersPerPage_def)
  have d: "int (length (users st)) \<le> 5 * pageCount st"
    and e: "5 * pageCount st < int (length (users st)) + 5"
    using pageCount_bounds [of st] by simp_all
  have f: "pageItems st = [1..pageCount st]" by (rule pageItems_upto)
  have g: "concat (map (\<lambda>p. paginateUsers (setCurrentPage p st)) (pageItems st)) = users st"
    by (rule concat_pageItems)
  have h: "pageCount st < currentPage st \<longrightarrow> paginateUsers st = []"
    using page_past_end by blast
  have k: "currentPage (handleDeleteUser i st) = currentPage st"
    by (simp add: handleDeleteUser_def)
  have l: "pageCount (handleDeleteUser i st) < currentPage st \<longrightarrow>
        paginateUsers (handleDeleteUser i st) = []"
    using page_past_end [of "handleDeleteUser i st"] k by simp
  from a b c d e f g h k l show ?thesis by blast
qed

theorem pagination_slices_witness:
  "(1::int) \<le> currentPage (initial\<lparr>users := map (\<lambda>n. \<lparr>ident = n, firstName = ''A'',
       lastName = ''B'', email = ''a@b.com'', department = ''X''\<rparr>) [1, 2, 3, 4, 5, 6],
       currentPage := 2\<rparr>)
   \<and> map ident (paginateUsers (initial\<lparr>users := map (\<lambda>n. \<lparr>ident = n, firstName = ''A'',
       lastName = ''B'', email = ''a@b.com'', department = ''X''\<rparr>) [1, 2, 3, 4, 5, 6],
       currentPage := 2\<rparr>)) = [6]
   \<and> pageCount (handleDeleteUser 6 (initial\<lparr>users := map (\<lambda>n. \<lparr>ident = n,
       firstName = ''A'', lastName = ''B'', email = ''a@b.com'', department = ''X''\<rparr>)
       [1, 2, 3, 4, 5, 6], currentPage := 2\<rparr>)) = 1
   \<and> paginateUsers (handleDeleteUser 6 (initial\<lparr>users := map (\<lambda>n. \<lparr>ident = n,
       firstName = ''A'', lastName = ''B'', email = ''a@b.com'', department = ''X''\<rparr>)
       [1, 2, 3, 4, 5, 6], currentPage := 2\<rparr>)) = []
   \<and> currentPage (handleDeleteUser 6 (initial\<lparr>users := map (\<lambda>n. \<lparr>ident = n,
       firstName = ''A'', lastName = ''B'', email = ''a@b.com'', department = ''X''\<rparr>)
       [1, 2, 3, 4, 5, 6], currentPage := 2\<rparr>)) = 2"
proof -
  let ?st = "initial\<lparr>users := map (\<lambda>n. \<lparr>ident = n, firstName = ''A'',
       lastName = ''B'', email = ''a@b.com'', department = ''X''\<rparr>) [1, 2, 3, 4, 5, 6],
       currentPage := 2\<rparr>"
  have p: "(1::int) \<le> currentPage ?st" by simp
  have c: "pageCount (handleDeleteUser 6 ?st) = 1"
    by (simp add: pageCount_def handleDeleteUser_def usersPerPage_def)
  have q: "pageCount (handleDeleteUser 6 ?st) < currentPage ?st"
    by (simp add: pageCount_def handleDeleteUser_def usersPerPage_def)
  note t = pagination_slices [of ?st 6]
  from t p have "paginateUsers ?st = take 5 (drop (nat ((currentPage ?st - 1) * 5)) (users ?st))"
    by blast
  then have s: "map ident (paginateUsers ?st) = [6]" by simp
  from t q have e: "paginateUsers (handleDeleteUser 6 ?st) = []" by blast
  from t have k: "currentPage (handleDeleteUser 6 ?st) = 2" by simp
  from p s c e k show ?thesis by blast
qed

subsection \<open>Edit and Delete\<close>

lemma users_handleEditUser:
  "users (handleEditUser st)
   = map (\<lambda>u. if Num (ident u) = ident (formData st)
                then \<lparr>ident = ident u, firstName = firstName (formData st),
                      lastName = lastName (formData st), email = email (formData st),
                      department = department (formData st)\<rparr>
                else u) (users st)"
proof (cases "ident (formData st)")
  case Blank
  then show ?thesis by (simp add: handleEditUser_def)
next
  case (Num i)
  have "(\<lambda>u. if ident u = i then updatedUser (formData st) i else u)
      = (\<lambda>u::user. if ident u = i
                then \<lparr>ident = ident u, firstName = firstName (formData st),
                      lastName = lastName (formData st), email = email (formData st),
                      department = department (formData st)\<rparr>
                else u)"
    by (auto simp: updatedUser_def)
  then show ?thesis using Num by (simp add: handleEditUser_def)
qed




text \<open>
  Unique ids, the invariant of the data model, are kept by Edit and Delete, and by Add
  while the ids are below \<open>2 ^ 53\<close>. The
  theorems on Edit and Delete below use the invariant where they speak of the one record
  that has an id.
\<close>

lemma distinct_ids_handleAddUser:
  assumes "distinct (map ident (users st))" and "\<forall>u \<in> set (users st). ident u < 2 ^ 53"
  shows "distinct (map ident (users (handleAddUser st)))"
proof -
  have "number_add (maxId (users st)) 1 = maxId (users st) + 1"
    using assms(2) by (intro next_id_exact maxId_less)
  then show ?thesis
    using assms(1) maxId_fresh [of "users st"] by (simp add: handleAddUser_def newUser_def)
qed

lemma distinct_ids_handleEditUser:
  assumes "distinct (map ident (users st))"
  shows "distinct (map ident (users (handleEditUser st)))"
proof -
  have "map ident (users (handleEditUser st)) = map ident (users st)"
    by (simp add: users_handleEditUser comp_def if_distrib [of ident])
  with assms show ?thesis by simp
qed

lemma distinct_ids_handleDeleteUser:
  assumes "distinct (map ident (users st))"
  shows "distinct (map ident (users (handleDeleteUser i st)))"
  using assms by (simp add: handleDeleteUser_def distinct_map_filter)





text \<open>
  C10. Deleting the same id twice gives the same state as deleting it once; deleting an
  id that no record has leaves the state as it is; and after a deletion no record has the
  id: every record with the id is removed, as many as there were.
\<close>

theorem handleDeleteUser_idempotent:
  "handleDeleteUser i (handleDeleteUser i st) = handleDeleteUser i st
   \<and> (i \<notin> ident ` set (users st) \<longrightarrow> handleDeleteUser i st = st)
   \<and> i \<notin> ident ` set (users (handleDeleteUser i st))
   \<and> length (users (handleDeleteUser i st)) + length (filter (\<lambda>u. ident u = i) (users st))
       = length (users st)"
proof -
  have a: "handleDeleteUser i (handleDeleteUser i st) = handleDeleteUser i st"
    by (simp add: handleDeleteUser_def)
  have b: "i \<notin> ident ` set (users st) \<longrightarrow> handleDeleteUser i st = st"
  proof
    assume "i \<notin> ident ` set (users st)"
    then have "filter (\<lambda>u. ident u \<noteq> i) (users st) = users st"
      by (auto simp: filter_id_conv)
    then show "handleDeleteUser i st = st" by (simp add: handleDeleteUser_def)
  qed
  have c: "i \<notin> ident ` set (users (handleDeleteUser i st))"
    by (auto simp: handleDeleteUser_def)
  have d: "length (users (handleDeleteUser i st)) + length (filter (\<lambda>u. ident u = i) (users st))
       = length (users st)"
    using sum_length_filter_compl [of "\<lambda>u. ident u = i" "users st"]
    by (simp add: handleDeleteUser_def add.commute)
  from a b c d show ?thesis by blast
qed

theorem handleDeleteUser_idempotent_witness:
  "(4::int) \<notin> ident ` set [\<lparr>ident = 1 :: int, firstName = ''L'', lastName = ''G'',
          email = ''l@g.biz'', department = ''General''\<rparr>,
        \<lparr>ident = 2, firstName = ''E'', lastName = ''H'', email = ''e@h.tv'',
          department = ''General''\<rparr>]
   \<and> handleDeleteUser 4 (initial\<lparr>users :=
       [\<lparr>ident = 1, firstName = ''L'', lastName = ''G'', email = ''l@g.biz'',
          department = ''General''\<rparr>,
        \<lparr>ident = 2, firstName = ''E'', lastName = ''H'', email = ''e@h.tv'',
          department = ''General''\<rparr>]\<rparr>)
     = initial\<lparr>users :=
       [\<lparr>ident = 1, firstName = ''L'', lastName = ''G'', email = ''l@g.biz'',
          department = ''General''\<rparr>,
        \<lparr>ident = 2, firstName = ''E'', lastName = ''H'', email = ''e@h.tv'',
          department = ''General''\<rparr>]\<rparr>
   \<and> users (handleDeleteUser 1 (initial\<lparr>users :=
       [\<lparr>ident = 1, firstName = ''L'', lastName = ''G'', email = ''l@g.biz'',
          department = ''General''\<rparr>,
        \<lparr>ident = 2, firstName = ''E'', lastName = ''H'', email = ''e@h.tv'',
          department = ''General''\<rparr>,
        \<lparr>ident = 1, firstName = ''C'', lastName = ''B'', email = ''c@b.net'',
          department = ''General''\<rparr>]\<rparr>))
     = [\<lparr>ident = 2, firstName = ''E'', lastName = ''H'', email = ''e@h.tv'',
          department = ''General''\<rparr>]"
proof -
  let ?st = "initial\<lparr>users :=
       [\<lparr>ident = 1, firstName = ''L'', lastName = ''G'', email = ''l@g.biz'',
          department = ''General''\<rparr>,
        \<lparr>ident = 2, firstName = ''E'', lastName = ''H'', email = ''e@h.tv'',
          department = ''General''\<rparr>]\<rparr>"
  have n: "4 \<notin> ident ` set (users ?st)" by simp
  with handleDeleteUser_idempotent [of 4 ?st] have "handleDeleteUser 4 ?st = ?st"
    by blast
  with n show ?thesis by (simp add: handleDeleteUser_def)
qed

subsection \<open>Validation\<close>

text \<open>
  C5. When one of the four fields of the draft is empty, Add changes nothing but the
  error message, which becomes the validation message: the list, the modal flag and the
  draft stay as they were. When all four fields are non-empty, Add appends the new record,
  closes the modal, clears the draft and does not touch the error message: there is no
  other way for Add to fail.
\<close>

theorem handleAddUser_validation:
  "(firstName (formData st) = [] \<or> lastName (formData st) = []
      \<or> email (formData st) = [] \<or> department (formData st) = [] \<longrightarrow>
      handleAddUser st = st\<lparr>error := ''All fields must be filled out!''\<rparr>
      \<and> users (handleAddUser st) = users st
      \<and> error (handleAddUser st) = ''All fields must be filled out!''
      \<and> showModal (handleAddUser st) = showModal st
      \<and> formData (handleAddUser st) = formData st)
   \<and> (firstName (formData st) \<noteq> [] \<and> lastName (formData st) \<noteq> []
      \<and> email (formData st) \<noteq> [] \<and> department (formData st) \<noteq> [] \<longrightarrow>
      users (handleAddUser st)
        = users st @ [newUser (formData st) (number_add (maxId (users st)) 1)]
      \<and> error (handleAddUser st) = error st
      \<and> showModal (handleAddUser st) = False
      \<and> formData (handleAddUser st) = emptyForm)"
  by (simp add: handleAddUser_def)

theorem handleAddUser_validation_witness:
  "handleAddUser (initial\<lparr>showModal := True,
       formData := \<lparr>ident = Blank, firstName = ''A'', lastName = ''B'', email = [],
                     department = ''X''\<rparr>\<rparr>)
     = initial\<lparr>showModal := True,
       formData := \<lparr>ident = Blank, firstName = ''A'', lastName = ''B'', email = [],
                     department = ''X''\<rparr>,
       error := ''All fields must be filled out!''\<rparr>
   \<and> users (handleAddUser (initial\<lparr>showModal := True,
       formData := \<lparr>ident = Blank, firstName = ''A'', lastName = ''B'', email = ''a@b.com'',
                     department = ''X''\<rparr>\<rparr>))
     = [\<lparr>ident = 1, firstName = ''A'', lastName = ''B'', email = ''a@b.com'',
          department = ''X''\<rparr>]
   \<and> error (handleAddUser (initial\<lparr>showModal := True,
       formData := \<lparr>ident = Blank, firstName = ''A'', lastName = ''B'', email = ''a@b.com'',
                     department = ''X''\<rparr>\<rparr>)) = []"
proof -
  let ?bad = "initial\<lparr>showModal := True,
       formData := \<lparr>ident = Blank, firstName = ''A'', lastName = ''B'', email = [],
                     department = ''X''\<rparr>\<rparr>"
  let ?good = "initial\<lparr>showModal := True,
       formData := \<lparr>ident = Blank, firstName = ''A'', lastName = ''B'', email = ''a@b.com'',
                     department = ''X''\<rparr>\<rparr>"
  have "email (formData ?bad) = []" by simp
  with handleAddUser_validation [of ?bad]
  have a: "handleAddUser ?bad = ?bad\<lparr>error := ''All fields must be filled out!''\<rparr>"
    by blast
  have "firstName (formData ?good) \<noteq> [] \<and> lastName (formData ?good) \<noteq> []
      \<and> email (formData ?good) \<noteq> [] \<and> department (formData ?good) \<noteq> []" by simp
  with handleAddUser_validation [of ?good]
  have "users (handleAddUser ?good)
          = users ?good @ [newUser (formData ?good) (number_add (maxId (users ?good)) 1)]"
    and c: "error (handleAddUser ?good) = error ?good"
    by blast+
  then have b: "users (handleAddUser ?good)
     = [\<lparr>ident = 1, firstName = ''A'', lastName = ''B'', email = ''a@b.com'',
          department = ''X''\<rparr>]"
    by (simp add: initial_def newUser_def maxId_def number_add_exact)
  from c have c': "error (handleAddUser ?good) = []" by (simp add: initial_def)
  from a b c' show ?thesis by simp
qed

text \<open>
  C9. Edit never changes the error message. Whenever the draft's id is the id of a
  record, Edit puts the draft's field values into the list, closes the modal and clears
  the draft, whatever the four fields hold; when they are all empty, the list then holds
  a record whose four fields are empty.
\<close>

theorem handleEditUser_no_validation:
  "error (handleEditUser st) = error st
   \<and> (ident (formData st) = Num i \<and> i \<in> ident ` set (users st) \<longrightarrow>
        \<lparr>ident = i, firstName = firstName (formData st), lastName = lastName (formData st),
          email = email (formData st), department = department (formData st)\<rparr>
          \<in> set (users (handleEditUser st))
        \<and> showModal (handleEditUser st) = False
        \<and> formData (handleEditUser st) = emptyForm)
   \<and> (ident (formData st) = Num i \<and> i \<in> ident ` set (users st)
        \<and> firstName (formData st) = [] \<and> lastName (formData st) = []
        \<and> email (formData st) = [] \<and> department (formData st) = [] \<longrightarrow>
        \<lparr>ident = i, firstName = [], lastName = [], email = [], department = []\<rparr>
          \<in> set (users (handleEditUser st)))"
proof -
  have a: "error (handleEditUser st) = error st"
    by (simp add: handleEditUser_def)
  have b: "ident (formData st) = Num i \<and> i \<in> ident ` set (users st) \<longrightarrow>
        \<lparr>ident = i, firstName = firstName (formData st), lastName = lastName (formData st),
          email = email (formData st), department = department (formData st)\<rparr>
          \<in> set (users (handleEditUser st))
        \<and> showModal (handleEditUser st) = False
        \<and> formData (handleEditUser st) = emptyForm"
  proof
    assume h: "ident (formData st) = Num i \<and> i \<in> ident ` set (users st)"
    then obtain u where u: "u \<in> set (users st)" "ident u = i" by auto
    have "(if ident u = i then updatedUser (formData st) i else u)
        \<in> (\<lambda>u. if ident u = i then updatedUser (formData st) i else u) ` set (users st)"
      using u(1) by (rule imageI)
    then have "updatedUser (formData st) i \<in> set (users (handleEditUser st))"
      using h u(2) by (simp add: handleEditUser_def)
    then show "\<lparr>ident = i, firstName = firstName (formData st),
          lastName = lastName (formData st),
          email = email (formData st), department = department (formData st)\<rparr>
          \<in> set (users (handleEditUser st))
        \<and> showModal (handleEditUser st) = False
        \<and> formData (handleEditUser st) = emptyForm"
      by (simp add: updatedUser_def handleEditUser_def)
  qed
  from a b show ?thesis by auto
qed

theorem handleEditUser_no_validation_witness:
  "ident (formData (initial\<lparr>users :=
       [\<lparr>ident = 1, firstName = ''L'', lastName = ''G'', email = ''l@g.biz'',
          department = ''General''\<rparr>],
       formData := \<lparr>ident = Num 1, firstName = [], lastName = [], email = [],
          department = []\<rparr>, editing := True, showModal := True\<rparr>)) = Num 1
   \<and> (1::int) \<in> ident ` set [\<lparr>ident = 1 :: int, firstName = ''L'', lastName = ''G'',
          email = ''l@g.biz'', department = ''General''\<rparr>]
   \<and> \<lparr>ident = 1, firstName = [], lastName = [], email = [], department = []\<rparr>
      \<in> set (users (handleEditUser (initial\<lparr>users :=
       [\<lparr>ident = 1, firstName = ''L'', lastName = ''G'', email = ''l@g.biz'',
          department = ''General''\<rparr>],
       formData := \<lparr>ident = Num 1, firstName = [], lastName = [], email = [],
          department = []\<rparr>, editing := True, showModal := True\<rparr>)))
   \<and> error (handleEditUser (initial\<lparr>users :=
       [\<lparr>ident = 1, firstName = ''L'', lastName = ''G'', email = ''l@g.biz'',
          department = ''General''\<rparr>],
       formData := \<lparr>ident = Num 1, firstName = [], lastName = [], email = [],
          department = []\<rparr>, editing := True, showModal := True\<rparr>)) = []"
proof -
  let ?st = "initial\<lparr>users :=
       [\<lparr>ident = 1, firstName = ''L'', lastName = ''G'', email = ''l@g.biz'',
          department = ''General''\<rparr>],
       formData := \<lparr>ident = Num 1, firstName = [], lastName = [], email = [],
          department = []\<rparr>, editing := True, showModal := True\<rparr>"
  have h: "ident (formData ?st) = Num 1 \<and> 1 \<in> ident ` set (users ?st)
        \<and> firstName (formData ?st) = [] \<and> lastName (formData ?st) = []
        \<and> email (formData ?st) = [] \<and> department (formData ?st) = []" by simp
  with handleEditUser_no_validation [of ?st 1]
  have a: "\<lparr>ident = 1, firstName = [], lastName = [], email = [], department = []\<rparr>
          \<in> set (users (handleEditUser ?st))"
    and b: "error (handleEditUser ?st) = error ?st"
    by blast+
  from b have b': "error (handleEditUser ?st) = []" by (simp add: initial_def)
  from h a b' show ?thesis by simp
qed

subsection \<open>Loader\<close>

text \<open>
  C8. When the request is rejected, \<open>fetchUsers\<close> sets the error message and changes
  nothing else. On mount the list is therefore left empty, one message is shown, and the
  one request was the only one: the answers that later requests would get are all unused.
\<close>

theorem fetchUsers_failure:
  "fetchUsers (Rejected # net) st = (st\<lparr>error := ''Failed to fetch users.''\<rparr>, net)
   \<and> mount (Rejected # net) = (initial\<lparr>error := ''Failed to fetch users.''\<rparr>, net)
   \<and> users (fst (mount (Rejected # net))) = []
   \<and> error (fst (mount (Rejected # net))) = ''Failed to fetch users.''
   \<and> snd (mount (Rejected # net)) = net"
  by (simp add: mount_def initial_def)

theorem fetchUsers_failure_witness:
  "mount [Rejected, Resolved [\<lparr>remote_id = 7, name = ''Jane Doe'',
                                 remote_email = ''j@d.com''\<rparr>]]
   = (\<lparr>users = [], showModal = False, formData = emptyForm,
       error = ''Failed to fetch users.'', editing = False, currentPage = 1\<rparr>,
      [Resolved [\<lparr>remote_id = 7, name = ''Jane Doe'', remote_email = ''j@d.com''\<rparr>]])"
  using fetchUsers_failure
    [of "[Resolved [\<lparr>remote_id = 7, name = ''Jane Doe'', remote_email = ''j@d.com''\<rparr>]]"
        initial]
  by (simp add: initial_def)

text \<open>
  The first piece of a split is the text before the first separator; the second piece,
  if there is one, is the text between the first and the second separator.
\<close>

lemma split_str_unfold:
  "split_str sep s
   = takeWhile (\<lambda>c. c \<noteq> sep) s
     # (case dropWhile (\<lambda>c. c \<noteq> sep) s of [] \<Rightarrow> [] | _ # r \<Rightarrow> split_str sep r)"
proof (induction s)
  case Nil
  show ?case by simp
next
  case (Cons c cs)
  show ?case
  proof (cases "c = sep")
    case True
    then show ?thesis by simp
  next
    case False
    then show ?thesis by (simp add: Cons.IH)
  qed
qed

lemma split_str_not_Nil: "split_str sep s \<noteq> []"
  by (subst split_str_unfold) simp

lemma index_split_1:
  "index (split_str sep s) (Suc 0)
   = (case dropWhile (\<lambda>c. c \<noteq> sep) s of
        [] \<Rightarrow> None
      | _ # r \<Rightarrow> Some (takeWhile (\<lambda>c. c \<noteq> sep) r))"
proof (cases "dropWhile (\<lambda>c. c \<noteq> sep) s")
  case Nil
  have "split_str sep s = [takeWhile (\<lambda>c. c \<noteq> sep) s]"
    by (subst split_str_unfold) (simp only: Nil list.case)
  then show ?thesis by (simp add: index_def Nil)
next
  case (Cons x r)
  have "split_str sep s = takeWhile (\<lambda>c. c \<noteq> sep) s # split_str sep r"
    by (subst split_str_unfold) (simp only: Cons list.case)
  also have "\<dots> = takeWhile (\<lambda>c. c \<noteq> sep) s # takeWhile (\<lambda>c. c \<noteq> sep) r
      # (case dropWhile (\<lambda>c. c \<noteq> sep) r of [] \<Rightarrow> [] | _ # r' \<Rightarrow> split_str sep r')"
    by (subst split_str_unfold) simp
  finally show ?thesis by (simp add: index_def Cons)
qed

lemma second_piece:
  "or_empty (index (split_str sep s) (Suc 0))
   = takeWhile (\<lambda>c. c \<noteq> sep) (drop (Suc 0) (dropWhile (\<lambda>c. c \<noteq> sep) s))"
proof (cases "dropWhile (\<lambda>c. c \<noteq> sep) s")
  case Nil
  show ?thesis by (simp add: index_split_1 or_empty_def Nil)
next
  case (Cons x r)
  show ?thesis by (simp add: index_split_1 or_empty_def Cons)
qed

lemma first_piece:
  "hd (split_str sep s) = takeWhile (\<lambda>c. c \<noteq> sep) s"
  by (subst split_str_unfold) simp

lemma one_separator_rest:
  assumes "count_list s sep \<le> 1"
  shows "sep \<notin> set (drop 1 (dropWhile (\<lambda>c. c \<noteq> sep) s))"
proof (cases "dropWhile (\<lambda>c. c \<noteq> sep) s")
  case Nil
  show ?thesis by (simp add: Nil)
next
  case (Cons x r)
  then have x: "x = sep" using hd_dropWhile [of "\<lambda>c. c \<noteq> sep" s] by auto
  have "s = takeWhile (\<lambda>c. c \<noteq> sep) s @ x # r"
    using takeWhile_dropWhile_id [of "\<lambda>c. c \<noteq> sep" s] Cons by simp
  then have "count_list s sep
      = count_list (takeWhile (\<lambda>c. c \<noteq> sep) s) sep + count_list (x # r) sep"
    by (metis count_list_append)
  then have "count_list r sep = 0" using assms x by simp
  then have "sep \<notin> set r" by (simp add: count_list_0_iff)
  then show ?thesis by (simp add: Cons)
qed

text \<open>
  C6 (as amended). The Loader copies the id and the email of a remote item, sets the
  department to \<open>General\<close>, takes as first name the part of the name before the first
  space, and as last name the part between the first and the second space: empty when
  the name has no space, and the whole remainder after the first space when the name has
  at most one space. The item \<open>{id: 7, name: "Jane Doe", email: "j@d.com"}\<close> becomes
  \<open>{id: 7, firstName: "Jane", lastName: "Doe", email: "j@d.com", department: "General"}\<close>.
  The list is replaced by the transformed items.
\<close>

theorem formatUser_fields:
  "ident (formatUser u) = remote_id u
   \<and> firstName (formatUser u) = takeWhile (\<lambda>c. c \<noteq> CHR '' '') (name u)
   \<and> lastName (formatUser u)
       = takeWhile (\<lambda>c. c \<noteq> CHR '' '') (drop 1 (dropWhile (\<lambda>c. c \<noteq> CHR '' '') (name u)))
   \<and> email (formatUser u) = remote_email u
   \<and> department (formatUser u) = ''General''
   \<and> (CHR '' '' \<notin> set (name u) \<longrightarrow> lastName (formatUser u) = [])
   \<and> (count_list (name u) CHR '' '' \<le> 1 \<longrightarrow>
        lastName (formatUser u) = drop 1 (dropWhile (\<lambda>c. c \<noteq> CHR '' '') (name u)))
   \<and> formatUser \<lparr>remote_id = 7, name = ''Jane Doe'', remote_email = ''j@d.com''\<rparr>
       = \<lparr>ident = 7, firstName = ''Jane'', lastName = ''Doe'', email = ''j@d.com'',
          department = ''General''\<rparr>
   \<and> fetchUsers (Resolved data # net) st = (st\<lparr>users := map formatUser data\<rparr>, net)"
proof -
  let ?sp = "\<lambda>c. c \<noteq> CHR '' ''"
  have a: "ident (formatUser u) = remote_id u" by (simp add: formatUser_def)
  have b: "firstName (formatUser u) = takeWhile ?sp (name u)"
    by (simp add: formatUser_def first_piece)
  have c: "lastName (formatUser u) = takeWhile ?sp (drop 1 (dropWhile ?sp (name u)))"
    by (simp add: formatUser_def second_piece)
  have d: "email (formatUser u) = remote_email u" by (simp add: formatUser_def)
  have e: "department (formatUser u) = ''General''" by (simp add: formatUser_def)
  have f: "CHR '' '' \<notin> set (name u) \<longrightarrow> lastName (formatUser u) = []"
  proof
    assume "CHR '' '' \<notin> set (name u)"
    then have dw: "dropWhile ?sp (name u) = []" by auto
    show "lastName (formatUser u) = []" by (simp add: c dw)
  qed
  have g: "count_list (name u) CHR '' '' \<le> 1 \<longrightarrow>
        lastName (formatUser u) = drop 1 (dropWhile ?sp (name u))"
  proof
    assume "count_list (name u) CHR '' '' \<le> 1"
    then have "CHR '' '' \<notin> set (drop 1 (dropWhile ?sp (name u)))"
      by (rule one_separator_rest)
    then have "takeWhile ?sp (drop 1 (dropWhile ?sp (name u))) = drop 1 (dropWhile ?sp (name u))"
      by (auto simp: takeWhile_eq_all_conv)
    then show "lastName (formatUser u) = drop 1 (dropWhile ?sp (name u))" by (simp only: c)
  qed
  have h: "formatUser \<lparr>remote_id = 7, name = ''Jane Doe'', remote_email = ''j@d.com''\<rparr>
       = \<lparr>ident = 7, firstName = ''Jane'', lastName = ''Doe'', email = ''j@d.com'',
          department = ''General''\<rparr>"
    by (simp add: formatUser_def index_def or_empty_def)
  have i: "fetchUsers (Resolved data # net) st = (st\<lparr>users := map formatUser data\<rparr>, net)"
    by simp
  from a b c d e f g h i show ?thesis by blast
qed

theorem formatUser_fields_witness:
  "CHR '' '' \<notin> set (name \<lparr>remote_id = 3, name = ''Cher'', remote_email = ''c@b.net''\<rparr>)
   \<and> formatUser \<lparr>remote_id = 3, name = ''Cher'', remote_email = ''c@b.net''\<rparr>
       = \<lparr>ident = 3, firstName = ''Cher'', lastName = [], email = ''c@b.net'',
          department = ''General''\<rparr>
   \<and> count_list (name \<lparr>remote_id = 7, name = ''Jane Doe'', remote_email = ''j@d.com''\<rparr>)
         CHR '' '' \<le> 1
   \<and> lastName (formatUser \<lparr>remote_id = 7, name = ''Jane Doe'', remote_email = ''j@d.com''\<rparr>)
       = ''Doe''"
proof -
  let ?c = "\<lparr>remote_id = 3, name = ''Cher'', remote_email = ''c@b.net''\<rparr>"
  let ?j = "\<lparr>remote_id = 7, name = ''Jane Doe'', remote_email = ''j@d.com''\<rparr>"
  have n: "CHR '' '' \<notin> set (name ?c)" by simp
  note t = formatUser_fields [of ?c]
  from t n have l: "lastName (formatUser ?c) = []" by blast
  from t have "ident (formatUser ?c) = 3" "firstName (formatUser ?c) = ''Cher''"
    "email (formatUser ?c) = ''c@b.net''" "department (formatUser ?c) = ''General''"
    by simp_all
  with l have a: "formatUser ?c = \<lparr>ident = 3, firstName = ''Cher'', lastName = [],
      email = ''c@b.net'', department = ''General''\<rparr>"
    by (cases "formatUser ?c") simp
  have m: "count_list (name ?j) CHR '' '' \<le> 1" by simp
  with formatUser_fields [of ?j]
  have "lastName (formatUser ?j) = drop 1 (dropWhile (\<lambda>c. c \<noteq> CHR '' '') (name ?j))"
    by blast
  then have b: "lastName (formatUser ?j) = ''Doe''" by simp
  from n a m b show ?thesis by blast
qed

text \<open>
  The claim as it was stated, with the last name being the remainder after the first
  space, fails on a name with two spaces: the last name of \<open>Mrs. Dennis Schulist\<close> is
  \<open>Dennis\<close>, while the remainder after the first space is \<open>Dennis Schulist\<close>.
\<close>

theorem formatUser_fields_counterexample:
  "lastName (formatUser \<lparr>remote_id = 6, name = ''Mrs. Dennis Schulist'',
       remote_email = ''Karley_Dach@jasper.info''\<rparr>) = ''Dennis''
   \<and> drop 1 (dropWhile (\<lambda>c. c \<noteq> CHR '' '') ''Mrs. Dennis Schulist'') = ''Dennis Schulist''"
  by (simp add: formatUser_def index_def or_empty_def)

end
